theory Spec2Isabelle
  imports Main
begin

section \<open>The debounce scheduler of utils.js\<close>

text \<open>
  The function \<^verbatim>\<open>debounce(func, wait, options)\<close> of \<^verbatim>\<open>src/src/utils.js\<close> closes over a
  handful of mutable variables and returns the front-end \<^verbatim>\<open>debounced\<close> together with
  \<^verbatim>\<open>cancel\<close>, \<^verbatim>\<open>flush\<close> and \<^verbatim>\<open>pending\<close>. The closure becomes a record that every
  operation takes and returns. The host (clock, timer queue) and the trace of the calls
  of \<^verbatim>\<open>func\<close> are fields of the same record, so that claims on timers and invocations
  can be stated.
\<close>

subsection \<open>Data\<close>

datatype error = TypeError string

text \<open>A registered wake-up: a one-shot timeout with the time it is due, or a frame callback.\<close>

datatype timer = Timeout int | Frame

text \<open>
  The \<^verbatim>\<open>options\<close> object: \<open>None\<close> is a key that is not in the object. Times are
  integers (milliseconds of \<^verbatim>\<open>Date.now()\<close>).
\<close>

record options =
  opt_leading :: "bool option"
  opt_maxWait :: "int option"
  opt_trailing :: "bool option"

text \<open>The argument \<^verbatim>\<open>func\<close>: a function of \<^verbatim>\<open>this\<close> and the argument list, or any other value.\<close>

datatype ('a, 't, 'r) jsvalue = Function "'t option \<Rightarrow> 'a list \<Rightarrow> 'r" | NotFunction

text \<open>
  \<open>None\<close> stands for \<^verbatim>\<open>undefined\<close> in the optional fields. \<open>wait\<close> is the argument as
  given (\<^verbatim>\<open>remainingWait\<close> reads it, not \<^verbatim>\<open>timeToWait\<close>). The last four fields are the
  host: the clock read by \<^verbatim>\<open>Date.now()\<close>, the wake-ups registered and not yet fired or
  cancelled, the next handle, and the calls of \<^verbatim>\<open>func\<close> so far (time, this, arguments).
\<close>

record ('a, 't, 'r) debouncer =
  func :: "'t option \<Rightarrow> 'a list \<Rightarrow> 'r"
  wait :: "int option"
  timeToWait :: int
  useRAF :: bool
  leading :: bool
  maxing :: bool
  maxWait :: "int option"
  trailing :: bool
  lastArgs :: "'a list option"
  lastThis :: "'t option"
  result :: "'r option"
  timerId :: "nat option"
  lastCallTime :: "int option"
  lastInvokeTime :: int
  now :: int
  timers :: "(nat \<times> timer) list"
  nextId :: nat
  invoked :: "(int \<times> 't option \<times> 'a list) list"

subsection \<open>Host primitives\<close>

text \<open>
  \<^verbatim>\<open>setTimeout(f, d)\<close> registers a one-shot timer due \<open>d\<close> milliseconds from now (a
  negative or \<^verbatim>\<open>NaN\<close> delay, here \<open>None\<close>, counts as 0) and returns a fresh handle;
  \<^verbatim>\<open>clearTimeout\<close> removes it; likewise for animation frames. A handle of the other
  kind, or \<^verbatim>\<open>undefined\<close>, removes nothing.
\<close>

definition setTimeout :: "int option \<Rightarrow> ('a, 't, 'r) debouncer \<Rightarrow> nat \<times> ('a, 't, 'r) debouncer" where
  "setTimeout waitFor s =
     (nextId s,
      s\<lparr>timers := timers s @ [(nextId s, Timeout (now s + max 0 (case waitFor of None \<Rightarrow> 0 | Some d \<Rightarrow> d)))],
        nextId := Suc (nextId s)\<rparr>)"

definition requestAnimationFrame :: "('a, 't, 'r) debouncer \<Rightarrow> nat \<times> ('a, 't, 'r) debouncer" where
  "requestAnimationFrame s =
     (nextId s, s\<lparr>timers := timers s @ [(nextId s, Frame)], nextId := Suc (nextId s)\<rparr>)"

definition clearTimeout :: "nat option \<Rightarrow> ('a, 't, 'r) debouncer \<Rightarrow> ('a, 't, 'r) debouncer" where
  "clearTimeout i s =
     s\<lparr>timers := filter (\<lambda>(h, k). \<not> (Some h = i \<and> k \<noteq> Frame)) (timers s)\<rparr>"

definition cancelAnimationFrame :: "nat option \<Rightarrow> ('a, 't, 'r) debouncer \<Rightarrow> ('a, 't, 'r) debouncer" where
  "cancelAnimationFrame i s =
     s\<lparr>timers := filter (\<lambda>(h, k). \<not> (Some h = i \<and> k = Frame)) (timers s)\<rparr>"

subsection \<open>The closure's functions\<close>

definition invokeFunc :: "int \<Rightarrow> ('a, 't, 'r) debouncer \<Rightarrow> 'r option \<times> ('a, 't, 'r) debouncer" where
  "invokeFunc time s =
     (let args = (case lastArgs s of None \<Rightarrow> [] | Some a \<Rightarrow> a);
          thisArg = lastThis s;
          r = func s thisArg args
      in (Some r,
          s\<lparr>lastArgs := None, lastThis := None, lastInvokeTime := time, result := Some r,
            invoked := invoked s @ [(time, thisArg, args)]\<rparr>))"

definition startTimer :: "int option \<Rightarrow> ('a, 't, 'r) debouncer \<Rightarrow> nat \<times> ('a, 't, 'r) debouncer" where
  "startTimer waitFor s =
     (if useRAF s then requestAnimationFrame (cancelAnimationFrame (timerId s) s)
      else setTimeout waitFor s)"

definition cancelTimer :: "nat option \<Rightarrow> ('a, 't, 'r) debouncer \<Rightarrow> ('a, 't, 'r) debouncer" where
  "cancelTimer i s = (if useRAF s then cancelAnimationFrame i s else clearTimeout i s)"

text \<open>\<^verbatim>\<open>timerId = startTimer(timerExpired, w)\<close>, the assignment included.\<close>

definition armTimer :: "int option \<Rightarrow> ('a, 't, 'r) debouncer \<Rightarrow> ('a, 't, 'r) debouncer" where
  "armTimer waitFor s = (case startTimer waitFor s of (h, s') \<Rightarrow> s'\<lparr>timerId := Some h\<rparr>)"

definition leadingEdge :: "int \<Rightarrow> ('a, 't, 'r) debouncer \<Rightarrow> 'r option \<times> ('a, 't, 'r) debouncer" where
  "leadingEdge time s =
     (let s1 = s\<lparr>lastInvokeTime := time\<rparr>;
          s2 = armTimer (Some (timeToWait s1)) s1
      in if leading s2 then invokeFunc time s2 else (result s2, s2))"

text \<open>
  Arithmetic on \<^verbatim>\<open>undefined\<close> gives \<^verbatim>\<open>NaN\<close>, and \<^verbatim>\<open>Math.min\<close> of a \<^verbatim>\<open>NaN\<close> is
  \<^verbatim>\<open>NaN\<close>: \<open>None\<close> here.
\<close>

definition js_sub :: "int option \<Rightarrow> int option \<Rightarrow> int option" where
  "js_sub a b = (case (a, b) of (Some x, Some y) \<Rightarrow> Some (x - y) | _ \<Rightarrow> None)"

definition js_min :: "int option \<Rightarrow> int option \<Rightarrow> int option" where
  "js_min a b = (case (a, b) of (Some x, Some y) \<Rightarrow> Some (min x y) | _ \<Rightarrow> None)"

definition remainingWait :: "int \<Rightarrow> ('a, 't, 'r) debouncer \<Rightarrow> int option" where
  "remainingWait time s =
     (let timeSinceLastCall = js_sub (Some time) (lastCallTime s);
          timeSinceLastInvoke = js_sub (Some time) (Some (lastInvokeTime s));
          timeWaiting = js_sub (wait s) timeSinceLastCall
      in if maxing s then js_min timeWaiting (js_sub (maxWait s) timeSinceLastInvoke)
         else timeWaiting)"

definition shouldInvoke :: "int \<Rightarrow> ('a, 't, 'r) debouncer \<Rightarrow> bool" where
  "shouldInvoke time s =
     (case lastCallTime s of
        None \<Rightarrow> True
      | Some c \<Rightarrow>
          time - c \<ge> timeToWait s \<or> time - c < 0 \<or>
          (maxing s \<and> (case maxWait s of None \<Rightarrow> False | Some m \<Rightarrow> time - lastInvokeTime s \<ge> m)))"

definition trailingEdge :: "int \<Rightarrow> ('a, 't, 'r) debouncer \<Rightarrow> 'r option \<times> ('a, 't, 'r) debouncer" where
  "trailingEdge time s =
     (let s1 = s\<lparr>timerId := None\<rparr>
      in if trailing s1 \<and> lastArgs s1 \<noteq> None then invokeFunc time s1
         else (result s1, s1\<lparr>lastArgs := None, lastThis := None\<rparr>))"

text \<open>The host calls \<^verbatim>\<open>timerExpired\<close> and drops what it returns.\<close>

definition timerExpired :: "('a, 't, 'r) debouncer \<Rightarrow> ('a, 't, 'r) debouncer" where
  "timerExpired s =
     (let time = now s
      in if shouldInvoke time s then snd (trailingEdge time s)
         else armTimer (remainingWait time s) s)"

definition cancel :: "('a, 't, 'r) debouncer \<Rightarrow> ('a, 't, 'r) debouncer" where
  "cancel s =
     (let s1 = (if timerId s \<noteq> None then cancelTimer (timerId s) s else s)
      in s1\<lparr>lastInvokeTime := 0, lastArgs := None, lastCallTime := None, lastThis := None,
            timerId := None\<rparr>)"

definition flush :: "('a, 't, 'r) debouncer \<Rightarrow> 'r option \<times> ('a, 't, 'r) debouncer" where
  "flush s = (if timerId s = None then (result s, s) else trailingEdge (now s) s)"

definition pending :: "('a, 't, 'r) debouncer \<Rightarrow> bool" where
  "pending s = (timerId s \<noteq> None)"

definition debounced ::
  "'t option \<Rightarrow> 'a list \<Rightarrow> ('a, 't, 'r) debouncer \<Rightarrow> 'r option \<times> ('a, 't, 'r) debouncer" where
  "debounced this args s =
     (let time = now s;
          isInvoking = shouldInvoke time s;
          s1 = s\<lparr>lastArgs := Some args, lastThis := this, lastCallTime := Some time\<rparr>
      in if isInvoking \<and> timerId s1 = None then leadingEdge time s1
         else if isInvoking \<and> maxing s1 then invokeFunc time (armTimer (Some (timeToWait s1)) s1)
         else let s2 = (if timerId s1 = None then armTimer (Some (timeToWait s1)) s1 else s1)
              in (result s2, s2))"

text \<open>
  \<^verbatim>\<open>debounce\<close> itself. \<open>w = None\<close> is an omitted \<^verbatim>\<open>wait\<close>, \<open>opts = None\<close> an
  \<^verbatim>\<open>options\<close> that is not an object, \<open>raf\<close> says whether the host has
  \<^verbatim>\<open>requestAnimationFrame\<close>. The host starts at time 0 with no timer registered.
\<close>

definition debounce ::
  "('a, 't, 'r) jsvalue \<Rightarrow> int option \<Rightarrow> options option \<Rightarrow> bool \<Rightarrow> error + ('a, 't, 'r) debouncer" where
  "debounce fn w opts raf =
     (case fn of
        NotFunction \<Rightarrow> Inl (TypeError ''Expected a function'')
      | Function f \<Rightarrow>
          (let tw = (case w of None \<Rightarrow> 0 | Some n \<Rightarrow> n)
           in Inr \<lparr>func = f, wait = w, timeToWait = tw,
                   useRAF = (w = None \<and> raf),
                   leading = (case opts of None \<Rightarrow> False | Some ob \<Rightarrow> opt_leading ob = Some True),
                   maxing = (case opts of None \<Rightarrow> False | Some ob \<Rightarrow> opt_maxWait ob \<noteq> None),
                   maxWait = (case opts of None \<Rightarrow> None
                              | Some ob \<Rightarrow> (case opt_maxWait ob of None \<Rightarrow> None | Some m \<Rightarrow> Some (max m tw))),
                   trailing = (case opts of None \<Rightarrow> True
                               | Some ob \<Rightarrow> (case opt_trailing ob of None \<Rightarrow> True | Some b \<Rightarrow> b)),
                   lastArgs = None, lastThis = None, result = None, timerId = None,
                   lastCallTime = None, lastInvokeTime = 0,
                   now = 0, timers = [], nextId = 1, invoked = []\<rparr>))"

subsection \<open>The host driving a debouncer\<close>

text \<open>
  What can happen to a debouncer: the clock moves to a time, the front-end or one of its
  methods is called, or the host fires a registered wake-up (a timeout not before it is
  due), which removes it from the queue and runs \<^verbatim>\<open>timerExpired\<close>. Firing a handle that
  is not registered or not yet due is not a run of the program: \<open>None\<close>.
\<close>

datatype ('a, 't) event =
  Clock int | Call "'t option" "'a list" | Fire nat | Cancel | Flush

definition fire :: "nat \<Rightarrow> ('a, 't, 'r) debouncer \<Rightarrow> ('a, 't, 'r) debouncer option" where
  "fire h s =
     (case map_of (timers s) h of
        None \<Rightarrow> None
      | Some k \<Rightarrow>
          if (case k of Timeout due \<Rightarrow> due \<le> now s | Frame \<Rightarrow> True)
          then Some (timerExpired (s\<lparr>timers := filter (\<lambda>(i, _). i \<noteq> h) (timers s)\<rparr>))
          else None)"

fun step :: "('a, 't) event \<Rightarrow> ('a, 't, 'r) debouncer \<Rightarrow> ('a, 't, 'r) debouncer option" where
  "step (Clock t) s = Some (s\<lparr>now := t\<rparr>)"
| "step (Call this args) s = Some (snd (debounced this args s))"
| "step (Fire h) s = fire h s"
| "step Cancel s = Some (cancel s)"
| "step Flush s = Some (snd (flush s))"

fun run :: "('a, 't) event list \<Rightarrow> ('a, 't, 'r) debouncer \<Rightarrow> ('a, 't, 'r) debouncer option" where
  "run [] s = Some s"
| "run (e # es) s = (case step e s of None \<Rightarrow> None | Some s' \<Rightarrow> run es s')"

text \<open>A target operation for the concrete scenarios: it returns its argument list.\<close>

definition echo :: "unit option \<Rightarrow> string list \<Rightarrow> string list" where
  "echo this args = args"

text \<open>What \<^verbatim>\<open>debounce\<close> returned, if it did not throw; and a run of events from there.\<close>

definition created :: "error + ('a, 't, 'r) debouncer \<Rightarrow> ('a, 't, 'r) debouncer option" where
  "created r = (case r of Inl _ \<Rightarrow> None | Inr s \<Rightarrow> Some s)"

definition from_start ::
  "error + ('a, 't, 'r) debouncer \<Rightarrow> ('a, 't) event list \<Rightarrow> ('a, 't, 'r) debouncer option" where
  "from_start r es = (case r of Inl _ \<Rightarrow> None | Inr s \<Rightarrow> run es s)"

subsection \<open>Auxiliary notions for the statements\<close>

text \<open>The argument list \<^verbatim>\<open>func.apply\<close> receives from \<^verbatim>\<open>lastArgs\<close>.\<close>

definition args_of :: "('a, 't, 'r) debouncer \<Rightarrow> 'a list" where
  "args_of s = (case lastArgs s of None \<Rightarrow> [] | Some a \<Rightarrow> a)"

text \<open>What the most recent call of \<^verbatim>\<open>func\<close> in the trace returned; \<open>None\<close> if there is none.\<close>

definition recorded :: "('a, 't, 'r) debouncer \<Rightarrow> 'r option" where
  "recorded s =
     (if invoked s = [] then None
      else Some (func s (fst (snd (last (invoked s)))) (snd (snd (last (invoked s))))))"

text \<open>The variables that only \<^verbatim>\<open>debounce\<close> itself assigns.\<close>

definition same_config :: "('a, 't, 'r) debouncer \<Rightarrow> ('a, 't, 'r) debouncer \<Rightarrow> bool" where
  "same_config s s' =
     (func s' = func s \<and> wait s' = wait s \<and> timeToWait s' = timeToWait s
      \<and> useRAF s' = useRAF s \<and> leading s' = leading s \<and> maxing s' = maxing s
      \<and> maxWait s' = maxWait s \<and> trailing s' = trailing s)"

subsection \<open>Runs with punctual wake-ups\<close>









subsection \<open>Debouncers of the scenarios\<close>

text \<open>\<^verbatim>\<open>debounce(echo, 100)\<close>: trailing only, no \<^verbatim>\<open>maxWait\<close>, timeouts.\<close>

definition plain100 :: "error + (string, unit, string list) debouncer" where
  "plain100 = debounce (Function echo) (Some 100) None False"

text \<open>\<^verbatim>\<open>debounce(echo, w, {maxWait: m})\<close> on timeouts.\<close>

definition capped :: "int \<Rightarrow> int \<Rightarrow> error + (string, unit, string list) debouncer" where
  "capped w m = debounce (Function echo) (Some w)
     (Some \<lparr>opt_leading = None, opt_maxWait = Some m, opt_trailing = None\<rparr>) False"

text \<open>\<^verbatim>\<open>debounce(echo, undefined, {maxWait: m})\<close> in a host with animation frames.\<close>

definition frame_capped :: "int \<Rightarrow> error + (string, unit, string list) debouncer" where
  "frame_capped m = debounce (Function echo) None
     (Some \<lparr>opt_leading = None, opt_maxWait = Some m, opt_trailing = None\<rparr>) True"

text \<open>\<^verbatim>\<open>debounce(echo, 100, {leading: true})\<close>.\<close>

definition leading100 :: "error + (string, unit, string list) debouncer" where
  "leading100 = debounce (Function echo) (Some 100)
     (Some \<lparr>opt_leading = Some True, opt_maxWait = None, opt_trailing = None\<rparr>) False"

text \<open>
  States the scenarios pass through: \<open>plain100\<close> untouched; \<open>plain100\<close> a hundred
  milliseconds after its only call; \<open>capped 100 250\<close> with a wake-up that is 200 ms
  late; and \<open>capped 100 250\<close> at the first wake-up of a burst that is still warm.
\<close>

definition idle100 :: "(string, unit, string list) debouncer" where
  "idle100 = the (from_start plain100 [])"

definition warm100 :: "(string, unit, string list) debouncer" where
  "warm100 = the (from_start plain100 [Clock 0, Call None [''A''], Clock 100])"

definition idle_capped :: "(string, unit, string list) debouncer" where
  "idle_capped = the (from_start (capped 100 250) [])"

definition late_capped :: "(string, unit, string list) debouncer" where
  "late_capped = the (from_start (capped 100 250) [Clock 0, Call None [''A''], Clock 300])"

definition warm_capped :: "(string, unit, string list) debouncer" where
  "warm_capped =
     the (from_start (capped 100 250)
            [Clock 0, Call None [''A''], Clock 40, Call None [''B''], Clock 100])"




section \<open>Properties\<close>

subsection \<open>Unfolding sets\<close>

lemmas host_defs =
  setTimeout_def requestAnimationFrame_def clearTimeout_def cancelAnimationFrame_def

lemmas sched_defs =
  invokeFunc_def startTimer_def cancelTimer_def armTimer_def leadingEdge_def
  js_sub_def js_min_def remainingWait_def shouldInvoke_def trailingEdge_def timerExpired_def
  cancel_def flush_def pending_def debounced_def debounce_def fire_def from_start_def
  created_def echo_def Let_def

lemmas scenario_defs =
  plain100_def capped_def frame_capped_def leading100_def
  idle100_def warm100_def idle_capped_def late_capped_def warm_capped_def

subsection \<open>Construction\<close>

text \<open>
  C9: whatever \<^verbatim>\<open>wait\<close>, \<^verbatim>\<open>options\<close> and host, \<^verbatim>\<open>debounce\<close> of a value that is not a
  function throws the \<^verbatim>\<open>TypeError\<close> and yields no debouncer.
\<close>

theorem debounce_rejects_non_function:
  "debounce NotFunction w opts raf = Inl (TypeError ''Expected a function'')
   \<and> created (debounce NotFunction w opts raf) = None"
  by (simp add: debounce_def created_def)

text \<open>
  C6, as claimed, fails: \<^verbatim>\<open>debounce(echo, 100, {maxWait: 50})\<close> does not throw. It
  returns a debouncer whose \<^verbatim>\<open>maxWait\<close> is 100.
\<close>

theorem maxWait_below_wait_is_accepted:
  "map_option maxWait (created (capped 100 50)) = Some (Some 100)
   \<and> map_option timeToWait (created (capped 100 50)) = Some 100"
  by (simp add: scenario_defs sched_defs)

text \<open>
  C6, amended: when \<^verbatim>\<open>options\<close> has a \<^verbatim>\<open>maxWait\<close> of \<open>m\<close>, \<^verbatim>\<open>debounce\<close> of a function
  succeeds for every \<^verbatim>\<open>wait\<close>, and the ceiling it keeps is the larger of \<open>m\<close> and
  \<^verbatim>\<open>timeToWait\<close> (so it is never below the delay).
\<close>

theorem debounce_clamps_maxWait:
  assumes "opt_maxWait ob = Some m"
  shows "created (debounce (Function f) w (Some ob) raf) \<noteq> None
    \<and> map_option maxing (created (debounce (Function f) w (Some ob) raf)) = Some True
    \<and> map_option timeToWait (created (debounce (Function f) w (Some ob) raf))
        = Some (case w of None \<Rightarrow> 0 | Some n \<Rightarrow> n)
    \<and> map_option maxWait (created (debounce (Function f) w (Some ob) raf))
        = Some (Some (max m (case w of None \<Rightarrow> 0 | Some n \<Rightarrow> n)))"
  using assms by (simp add: debounce_def created_def Let_def)

text \<open>The amended C6 at \<^verbatim>\<open>wait = 100\<close>, \<^verbatim>\<open>maxWait = 50\<close>.\<close>

theorem debounce_clamps_maxWait_witness:
  "opt_maxWait \<lparr>opt_leading = None, opt_maxWait = Some 50, opt_trailing = None\<rparr> = Some 50
   \<and> created (debounce (Function echo) (Some 100)
        (Some \<lparr>opt_leading = None, opt_maxWait = Some 50, opt_trailing = None\<rparr>) False) \<noteq> None
   \<and> map_option maxWait (created (debounce (Function echo) (Some 100)
        (Some \<lparr>opt_leading = None, opt_maxWait = Some 50, opt_trailing = None\<rparr>) False))
      = Some (Some 100)"
proof -
  have h: "opt_maxWait \<lparr>opt_leading = None, opt_maxWait = Some 50, opt_trailing = None\<rparr> = Some 50"
    by simp
  show ?thesis
    using h debounce_clamps_maxWait [OF h, of echo "Some 100" False] by simp
qed

subsection \<open>The scenario of three calls\<close>

text \<open>
  C1: \<^verbatim>\<open>debounce(echo, 100)\<close>, called at 0, 30 and 60 with A, B and C. At 100 the only
  wake-up registered is the one due at 100 and nothing has been invoked; that wake-up
  re-schedules for 160 without invoking; the wake-up at 160 invokes \<^verbatim>\<open>func\<close> with C.
  After it the trace holds that one call, no wake-up is registered and nothing is pending.
\<close>

theorem burst_of_three_invokes_last_at_160:
  "map_option timers
     (from_start plain100
        [Clock 0, Call None [''A''], Clock 30, Call None [''B''], Clock 60, Call None [''C''],
         Clock 100])
     = Some [(1, Timeout 100)]
   \<and> map_option invoked
     (from_start plain100
        [Clock 0, Call None [''A''], Clock 30, Call None [''B''], Clock 60, Call None [''C''],
         Clock 100])
     = Some []
   \<and> map_option timers
     (from_start plain100
        [Clock 0, Call None [''A''], Clock 30, Call None [''B''], Clock 60, Call None [''C''],
         Clock 100, Fire 1])
     = Some [(2, Timeout 160)]
   \<and> map_option invoked
     (from_start plain100
        [Clock 0, Call None [''A''], Clock 30, Call None [''B''], Clock 60, Call None [''C''],
         Clock 100, Fire 1])
     = Some []
   \<and> map_option invoked
     (from_start plain100
        [Clock 0, Call None [''A''], Clock 30, Call None [''B''], Clock 60, Call None [''C''],
         Clock 100, Fire 1, Clock 160, Fire 2])
     = Some [(160, None, [''C''])]
   \<and> map_option timers
     (from_start plain100
        [Clock 0, Call None [''A''], Clock 30, Call None [''B''], Clock 60, Call None [''C''],
         Clock 100, Fire 1, Clock 160, Fire 2])
     = Some []
   \<and> map_option pending
     (from_start plain100
        [Clock 0, Call None [''A''], Clock 30, Call None [''B''], Clock 60, Call None [''C''],
         Clock 100, Fire 1, Clock 160, Fire 2])
     = Some False"
  by (simp add: scenario_defs sched_defs host_defs)

subsection \<open>cancel\<close>

text \<open>
  C3, as claimed, fails: after \<^verbatim>\<open>debounce(echo, 100, {leading: true})\<close> has invoked at
  time 100, \<^verbatim>\<open>lastInvokeTime\<close> is 100, and \<^verbatim>\<open>cancel\<close> sets it to 0.
\<close>

theorem cancel_resets_lastInvokeTime:
  "map_option lastInvokeTime (from_start leading100 [Clock 100, Call None [''A'']]) = Some 100
   \<and> map_option lastInvokeTime (from_start leading100 [Clock 100, Call None [''A''], Cancel])
      = Some 0"
  by (simp add: scenario_defs sched_defs host_defs)

text \<open>
  C3, amended: in every state \<^verbatim>\<open>cancel\<close> sets \<^verbatim>\<open>lastCallTime\<close>, \<^verbatim>\<open>lastArgs\<close>,
  \<^verbatim>\<open>lastThis\<close> and \<^verbatim>\<open>timerId\<close> to \<^verbatim>\<open>undefined\<close> and \<^verbatim>\<open>lastInvokeTime\<close> to 0, calls
  \<^verbatim>\<open>func\<close> zero times and leaves \<^verbatim>\<open>result\<close> as it was.
\<close>

theorem cancel_effect:
  "lastCallTime (cancel s) = None \<and> lastArgs (cancel s) = None \<and> lastThis (cancel s) = None
   \<and> timerId (cancel s) = None \<and> pending (cancel s) = False
   \<and> lastInvokeTime (cancel s) = 0
   \<and> invoked (cancel s) = invoked s \<and> result (cancel s) = result s"
  by (simp add: cancel_def cancelTimer_def pending_def host_defs Let_def)

subsection \<open>Outstanding wake-ups\<close>

text \<open>
  C4 at its failing inputs. \<^verbatim>\<open>debounce(echo, 100, {maxWait: 100})\<close> on timeouts, called at
  0 and again at 150 before the wake-up due at 100 has run: the branch for a tight loop
  registers a second timeout and the first stays registered. The same happens with every
  wake-up on time, for calls at 0, 99, 190 and 280. On animation frames the same calls
  leave one frame callback, because \<^verbatim>\<open>startTimer\<close> cancels the old one on that path only.
\<close>

theorem tight_loop_leaves_two_timeouts:
  "map_option timers
     (from_start (capped 100 100) [Clock 0, Call None [''A''], Clock 150, Call None [''B'']])
     = Some [(1, Timeout 100), (2, Timeout 250)]
   \<and> map_option timers
     (from_start (capped 100 100)
        [Clock 0, Call None [''A''], Clock 99, Call None [''B''], Clock 100, Fire 1,
         Clock 190, Call None [''C''], Clock 280, Call None [''D'']])
     = Some [(2, Timeout 290), (3, Timeout 380)]
   \<and> map_option timers
     (from_start (frame_capped 100) [Clock 0, Call None [''A''], Clock 150, Call None [''B'']])
     = Some [(2, Frame)]"
  by (simp add: scenario_defs sched_defs host_defs)

subsection \<open>The wake-up handler and flush\<close>

text \<open>
  C5, as claimed, fails: \<^verbatim>\<open>debounce(echo, 100)\<close> called at 0; at 100 \<^verbatim>\<open>shouldInvoke\<close>
  holds and the wake-up runs the trailing edge, after which \<^verbatim>\<open>lastCallTime\<close> is still 0
  and not \<^verbatim>\<open>undefined\<close>.
\<close>

theorem trailing_edge_keeps_lastCallTime:
  "map_option (shouldInvoke 100) (from_start plain100 [Clock 0, Call None [''A''], Clock 100])
     = Some True
   \<and> map_option invoked (from_start plain100 [Clock 0, Call None [''A''], Clock 100, Fire 1])
     = Some [(100, None, [''A''])]
   \<and> map_option lastCallTime (from_start plain100 [Clock 0, Call None [''A''], Clock 100, Fire 1])
     = Some (Some 0)"
  by (simp add: scenario_defs sched_defs host_defs)

text \<open>
  C5, amended: when the wake-up handler runs and \<^verbatim>\<open>shouldInvoke\<close> holds, \<^verbatim>\<open>timerId\<close>,
  \<^verbatim>\<open>lastArgs\<close> and \<^verbatim>\<open>lastThis\<close> become \<^verbatim>\<open>undefined\<close>, \<^verbatim>\<open>lastCallTime\<close> stays as it
  was and no wake-up is registered; if \<^verbatim>\<open>trailing\<close> is set and \<^verbatim>\<open>lastArgs\<close> was present,
  \<^verbatim>\<open>func\<close> is called once with them, \<^verbatim>\<open>lastInvokeTime\<close> becomes the current time and
  \<^verbatim>\<open>result\<close> the value returned; otherwise nothing is called and both stay.
\<close>

theorem wakeup_trailing_edge:
  assumes "shouldInvoke (now s) s"
  shows "timerId (timerExpired s) = None \<and> pending (timerExpired s) = False
    \<and> lastArgs (timerExpired s) = None \<and> lastThis (timerExpired s) = None
    \<and> lastCallTime (timerExpired s) = lastCallTime s
    \<and> timers (timerExpired s) = timers s
    \<and> (if trailing s \<and> lastArgs s \<noteq> None
        then invoked (timerExpired s) = invoked s @ [(now s, lastThis s, args_of s)]
           \<and> lastInvokeTime (timerExpired s) = now s
           \<and> result (timerExpired s) = Some (func s (lastThis s) (args_of s))
        else invoked (timerExpired s) = invoked s
           \<and> lastInvokeTime (timerExpired s) = lastInvokeTime s
           \<and> result (timerExpired s) = result s)"
  using assms
  by (simp add: timerExpired_def trailingEdge_def invokeFunc_def pending_def args_of_def Let_def)

text \<open>The amended C5 at \<open>warm100\<close>: the trailing branch with arguments pending.\<close>

theorem wakeup_trailing_edge_witness:
  "shouldInvoke (now warm100) warm100
   \<and> trailing warm100 \<and> lastArgs warm100 \<noteq> None
   \<and> timerId (timerExpired warm100) = None
   \<and> lastCallTime (timerExpired warm100) = lastCallTime warm100
   \<and> invoked (timerExpired warm100)
       = invoked warm100 @ [(now warm100, lastThis warm100, args_of warm100)]
   \<and> lastInvokeTime (timerExpired warm100) = now warm100"
proof -
  have h: "shouldInvoke (now warm100) warm100"
    by (simp add: scenario_defs sched_defs host_defs)
  have t: "trailing warm100 \<and> lastArgs warm100 \<noteq> None"
    by (simp add: scenario_defs sched_defs host_defs)
  show ?thesis
    using h t wakeup_trailing_edge [OF h] by simp
qed

text \<open>
  C7, as claimed, fails in its last part. \<^verbatim>\<open>debounce(echo, 100)\<close> called at 0 and
  flushed at 40: \<^verbatim>\<open>func\<close> is invoked and \<^verbatim>\<open>pending()\<close> is false, but the wake-up due at
  100 is still registered and \<^verbatim>\<open>lastCallTime\<close> is still 0, so the machine is not as it
  is when idle. It shows: with \<^verbatim>\<open>leading\<close> set, a call at 50 after the same flush takes
  no leading edge, and two wake-ups are then registered.
\<close>

theorem flush_keeps_wakeup_and_lastCallTime:
  "map_option invoked (from_start plain100 [Clock 0, Call None [''A''], Clock 40, Flush])
     = Some [(40, None, [''A''])]
   \<and> map_option pending (from_start plain100 [Clock 0, Call None [''A''], Clock 40, Flush])
     = Some False
   \<and> map_option timers (from_start plain100 [Clock 0, Call None [''A''], Clock 40, Flush])
     = Some [(1, Timeout 100)]
   \<and> map_option lastCallTime (from_start plain100 [Clock 0, Call None [''A''], Clock 40, Flush])
     = Some (Some 0)
   \<and> map_option invoked
       (from_start leading100
          [Clock 0, Call None [''A''], Clock 40, Flush, Clock 50, Call None [''B'']])
     = Some [(0, None, [''A''])]
   \<and> map_option timers
       (from_start leading100
          [Clock 0, Call None [''A''], Clock 40, Flush, Clock 50, Call None [''B'']])
     = Some [(1, Timeout 100), (2, Timeout 150)]"
  by (simp add: scenario_defs sched_defs host_defs)

text \<open>
  C7, amended: \<^verbatim>\<open>flush\<close> with no timer (\<^verbatim>\<open>timerId\<close> undefined) returns \<^verbatim>\<open>result\<close> and
  changes nothing. With a timer it runs the trailing edge at the current time, whatever
  that time is: \<^verbatim>\<open>func\<close> is called with the pending arguments exactly when \<^verbatim>\<open>trailing\<close>
  is set and \<^verbatim>\<open>lastArgs\<close> is present; the value returned is the \<^verbatim>\<open>result\<close> after the
  call (the new one if \<^verbatim>\<open>func\<close> ran, the old one otherwise); \<^verbatim>\<open>timerId\<close> and
  \<^verbatim>\<open>lastArgs\<close> are undefined afterwards, so that \<^verbatim>\<open>pending()\<close> is false; \<^verbatim>\<open>lastCallTime\<close>
  and the wake-ups registered with the host stay as they were.
\<close>

theorem flush_idle_and_pending:
  "(timerId s = None \<longrightarrow> flush s = (result s, s))
   \<and> (timerId s \<noteq> None \<longrightarrow>
        timerId (snd (flush s)) = None \<and> pending (snd (flush s)) = False
        \<and> lastArgs (snd (flush s)) = None \<and> lastThis (snd (flush s)) = None
        \<and> lastCallTime (snd (flush s)) = lastCallTime s
        \<and> timers (snd (flush s)) = timers s
        \<and> fst (flush s) = result (snd (flush s))
        \<and> (if trailing s \<and> lastArgs s \<noteq> None
            then invoked (snd (flush s)) = invoked s @ [(now s, lastThis s, args_of s)]
               \<and> fst (flush s) = Some (func s (lastThis s) (args_of s))
               \<and> lastInvokeTime (snd (flush s)) = now s
            else invoked (snd (flush s)) = invoked s \<and> fst (flush s) = result s
               \<and> lastInvokeTime (snd (flush s)) = lastInvokeTime s))"
  by (simp add: flush_def trailingEdge_def invokeFunc_def pending_def args_of_def Let_def)

text \<open>
  The amended C7 at \<open>idle100\<close> (no timer) and at \<open>plain100\<close> 40 ms after its only call,
  well before the delay has elapsed.
\<close>

theorem flush_idle_and_pending_witness:
  "timerId idle100 = None \<and> flush idle100 = (result idle100, idle100)
   \<and> timerId (warm100\<lparr>now := 40\<rparr>) \<noteq> None
   \<and> trailing (warm100\<lparr>now := 40\<rparr>) \<and> lastArgs (warm100\<lparr>now := 40\<rparr>) \<noteq> None
   \<and> pending (snd (flush (warm100\<lparr>now := 40\<rparr>))) = False
   \<and> invoked (snd (flush (warm100\<lparr>now := 40\<rparr>))) = [(40, None, [''A''])]
   \<and> fst (flush (warm100\<lparr>now := 40\<rparr>)) = Some [''A'']
   \<and> lastCallTime (snd (flush (warm100\<lparr>now := 40\<rparr>))) = Some 0
   \<and> timers (snd (flush (warm100\<lparr>now := 40\<rparr>))) = [(1, Timeout 100)]"
proof -
  have i: "timerId idle100 = None"
    by (simp add: scenario_defs sched_defs host_defs)
  have p: "timerId (warm100\<lparr>now := 40\<rparr>) \<noteq> None
      \<and> trailing (warm100\<lparr>now := 40\<rparr>) \<and> lastArgs (warm100\<lparr>now := 40\<rparr>) \<noteq> None"
    by (simp add: scenario_defs sched_defs host_defs)
  have v: "invoked (warm100\<lparr>now := 40\<rparr>) = [] \<and> lastThis (warm100\<lparr>now := 40\<rparr>) = None
      \<and> args_of (warm100\<lparr>now := 40\<rparr>) = [''A''] \<and> func (warm100\<lparr>now := 40\<rparr>) = echo
      \<and> lastCallTime (warm100\<lparr>now := 40\<rparr>) = Some 0
      \<and> timers (warm100\<lparr>now := 40\<rparr>) = [(1, Timeout 100)]"
    by (simp add: scenario_defs sched_defs host_defs args_of_def)
  show ?thesis
    using i p v flush_idle_and_pending [of idle100]
      flush_idle_and_pending [of "warm100\<lparr>now := 40\<rparr>"]
    by (auto simp add: echo_def)
qed

subsection \<open>A call while a wake-up is pending\<close>

text \<open>
  C8, as claimed, fails: \<^verbatim>\<open>debounce(echo, 100, {maxWait: 1000})\<close> is called at 0 and again
  at 150, the wake-up of the first call still pending. \<^verbatim>\<open>shouldInvoke\<close> holds because
  the delay has elapsed; only 150 ms have passed since \<^verbatim>\<open>lastInvokeTime\<close>, so the ceiling
  of 1000 is not the trigger; and \<^verbatim>\<open>func\<close> is invoked at once. The same with a clock
  that goes back from 50 to 40.
\<close>

theorem pending_call_invokes_without_ceiling:
  "map_option pending (from_start (capped 100 1000) [Clock 0, Call None [''A''], Clock 150])
     = Some True
   \<and> map_option (shouldInvoke 150)
       (from_start (capped 100 1000) [Clock 0, Call None [''A''], Clock 150]) = Some True
   \<and> map_option maxWait (from_start (capped 100 1000) [Clock 0, Call None [''A''], Clock 150])
     = Some (Some 1000)
   \<and> map_option lastInvokeTime
       (from_start (capped 100 1000) [Clock 0, Call None [''A''], Clock 150]) = Some 0
   \<and> map_option invoked
       (from_start (capped 100 1000) [Clock 0, Call None [''A''], Clock 150, Call None [''B'']])
     = Some [(150, None, [''B''])]
   \<and> map_option lastInvokeTime
       (from_start (capped 100 1000) [Clock 50, Call None [''A''], Clock 40]) = Some 50
   \<and> map_option invoked
       (from_start (capped 100 1000) [Clock 50, Call None [''A''], Clock 40, Call None [''B'']])
     = Some [(40, None, [''B''])]"
  by (simp add: scenario_defs sched_defs host_defs)

text \<open>
  C8, amended: when a call arrives while a wake-up is pending and \<^verbatim>\<open>shouldInvoke\<close>
  holds, \<^verbatim>\<open>func\<close> is invoked at once (and a new wake-up of \<^verbatim>\<open>timeToWait\<close> is requested)
  if and only if \<^verbatim>\<open>maxWait\<close> was configured, whichever disjunct made the predicate true;
  without \<^verbatim>\<open>maxWait\<close> nothing is invoked and the pending wake-up is left as it is.
\<close>

theorem pending_call_invokes_iff_maxing:
  assumes "timerId s \<noteq> None" and "shouldInvoke (now s) s"
  shows "(maxing s \<longrightarrow>
            invoked (snd (debounced this args s)) = invoked s @ [(now s, this, args)]
          \<and> fst (debounced this args s) = Some (func s this args)
          \<and> lastInvokeTime (snd (debounced this args s)) = now s
          \<and> timerId (snd (debounced this args s)) = Some (nextId s)
          \<and> (nextId s, if useRAF s then Frame else Timeout (now s + max 0 (timeToWait s)))
              \<in> set (timers (snd (debounced this args s))))
       \<and> (\<not> maxing s \<longrightarrow>
            invoked (snd (debounced this args s)) = invoked s
          \<and> fst (debounced this args s) = result s
          \<and> lastInvokeTime (snd (debounced this args s)) = lastInvokeTime s
          \<and> timerId (snd (debounced this args s)) = timerId s
          \<and> timers (snd (debounced this args s)) = timers s)"
  using assms
  by (auto simp add: debounced_def invokeFunc_def armTimer_def startTimer_def host_defs Let_def)

text \<open>
  The amended C8 with \<^verbatim>\<open>maxWait\<close> (\<open>late_capped\<close>: 300 ms after the call, the wake-up
  late) and without (\<open>warm100\<close>: 100 ms after the call, the wake-up not yet run).
\<close>

theorem pending_call_invokes_iff_maxing_witness:
  "timerId late_capped \<noteq> None \<and> shouldInvoke (now late_capped) late_capped
   \<and> maxing late_capped
   \<and> invoked (snd (debounced None [''B''] late_capped))
       = invoked late_capped @ [(now late_capped, None, [''B''])]
   \<and> timerId warm100 \<noteq> None \<and> shouldInvoke (now warm100) warm100 \<and> \<not> maxing warm100
   \<and> invoked (snd (debounced None [''B''] warm100)) = invoked warm100
   \<and> timers (snd (debounced None [''B''] warm100)) = timers warm100"
proof -
  have a: "timerId late_capped \<noteq> None" and b: "shouldInvoke (now late_capped) late_capped"
    and c: "maxing late_capped"
    by (simp_all add: scenario_defs sched_defs host_defs)
  have d: "timerId warm100 \<noteq> None" and e: "shouldInvoke (now warm100) warm100"
    and f: "\<not> maxing warm100"
    by (simp_all add: scenario_defs sched_defs host_defs)
  show ?thesis
    using a b c d e f pending_call_invokes_iff_maxing [OF a b, of None "[''B'']"]
      pending_call_invokes_iff_maxing [OF d e, of None "[''B'']"]
    by simp
qed

subsection \<open>Invariants of a run\<close>

lemma same_config_refl: "same_config s s"
  by (simp add: same_config_def)

lemma same_config_trans: "same_config s s' \<Longrightarrow> same_config s' s'' \<Longrightarrow> same_config s s''"
  by (simp add: same_config_def)

lemma armTimer_config: "same_config s (armTimer w s)"
  by (simp add: same_config_def armTimer_def startTimer_def host_defs)

lemma trailingEdge_config: "same_config s (snd (trailingEdge t s))"
  by (simp add: same_config_def trailingEdge_def invokeFunc_def Let_def)

lemma timerExpired_config: "same_config s (timerExpired s)"
  using trailingEdge_config [of s "now s"] armTimer_config [of s]
  by (simp add: timerExpired_def Let_def)

lemma debounced_config: "same_config s (snd (debounced this args s))"
  by (simp add: same_config_def debounced_def leadingEdge_def invokeFunc_def armTimer_def
      startTimer_def host_defs Let_def)

lemma cancel_config: "same_config s (cancel s)"
  by (simp add: same_config_def cancel_def cancelTimer_def host_defs Let_def)

lemma flush_config: "same_config s (snd (flush s))"
  using trailingEdge_config [of s "now s"] by (simp add: flush_def same_config_refl)

lemma fire_Some:
  "fire h s = Some s' \<Longrightarrow> s' = timerExpired (s\<lparr>timers := filter (\<lambda>(i, _). i \<noteq> h) (timers s)\<rparr>)"
  by (auto simp: fire_def split: option.splits if_splits)

lemma step_config:
  assumes "step e s = Some s'"
  shows "same_config s s'"
proof (cases e)
  case (Clock t)
  with assms show ?thesis by (auto simp: same_config_def)
next
  case (Call this args)
  with assms show ?thesis using debounced_config [of s this args] by auto
next
  case (Fire h)
  with assms have "s' = timerExpired (s\<lparr>timers := filter (\<lambda>(i, _). i \<noteq> h) (timers s)\<rparr>)"
    by (simp add: fire_Some)
  then show ?thesis
    using timerExpired_config [of "s\<lparr>timers := filter (\<lambda>(i, _). i \<noteq> h) (timers s)\<rparr>"]
    by (simp add: same_config_def)
next
  case Cancel
  with assms show ?thesis using cancel_config [of s] by auto
next
  case Flush
  with assms show ?thesis using flush_config [of s] by auto
qed

lemma run_config: "run es s = Some s' \<Longrightarrow> same_config s s'"
proof (induction es arbitrary: s)
  case Nil
  then show ?case by (simp add: same_config_refl)
next
  case (Cons e es)
  then obtain s1 where a: "step e s = Some s1" and b: "run es s1 = Some s'"
    by (auto split: option.splits)
  from step_config [OF a] Cons.IH [OF b] show ?case by (rule same_config_trans)
qed

text \<open>\<^verbatim>\<open>result\<close> always is what the last call of \<^verbatim>\<open>func\<close> returned.\<close>

lemma invokeFunc_recorded: "result (snd (invokeFunc t s)) = recorded (snd (invokeFunc t s))"
  by (simp add: invokeFunc_def recorded_def Let_def)

lemma armTimer_recorded:
  "result s = recorded s \<Longrightarrow> result (armTimer w s) = recorded (armTimer w s)"
  by (simp add: recorded_def armTimer_def startTimer_def host_defs)

lemma trailingEdge_recorded:
  "result s = recorded s \<Longrightarrow> result (snd (trailingEdge t s)) = recorded (snd (trailingEdge t s))"
  using invokeFunc_recorded [of t "s\<lparr>timerId := None\<rparr>"]
  by (simp add: trailingEdge_def Let_def recorded_def)

lemma leadingEdge_recorded:
  "result s = recorded s \<Longrightarrow> result (snd (leadingEdge t s)) = recorded (snd (leadingEdge t s))"
  using invokeFunc_recorded [of t "armTimer (Some (timeToWait s)) (s\<lparr>lastInvokeTime := t\<rparr>)"]
    armTimer_recorded [of "s\<lparr>lastInvokeTime := t\<rparr>" "Some (timeToWait s)"]
  by (simp add: leadingEdge_def Let_def recorded_def)

lemma debounced_recorded:
  assumes "result s = recorded s"
  shows "result (snd (debounced this args s)) = recorded (snd (debounced this args s))"
proof -
  let ?s1 = "s\<lparr>lastArgs := Some args, lastThis := this, lastCallTime := Some (now s)\<rparr>"
  have r1: "result ?s1 = recorded ?s1" using assms by (simp add: recorded_def)
  show ?thesis
    using leadingEdge_recorded [OF r1, of "now s"]
      invokeFunc_recorded [of "now s" "armTimer (Some (timeToWait s)) ?s1"]
      armTimer_recorded [OF r1, of "Some (timeToWait s)"] r1
    by (simp add: debounced_def Let_def)
qed

lemma cancel_recorded: "result s = recorded s \<Longrightarrow> result (cancel s) = recorded (cancel s)"
  by (simp add: cancel_def cancelTimer_def host_defs Let_def recorded_def)

lemma timerExpired_recorded:
  "result s = recorded s \<Longrightarrow> result (timerExpired s) = recorded (timerExpired s)"
  using trailingEdge_recorded [of s "now s"] armTimer_recorded [of s]
  by (simp add: timerExpired_def Let_def)

lemma step_recorded:
  assumes "step e s = Some s'" and "result s = recorded s"
  shows "result s' = recorded s'"
proof (cases e)
  case (Clock t)
  with assms show ?thesis by (auto simp: recorded_def)
next
  case (Call this args)
  with assms show ?thesis using debounced_recorded [of s this args] by auto
next
  case (Fire h)
  let ?s0 = "s\<lparr>timers := filter (\<lambda>(i, _). i \<noteq> h) (timers s)\<rparr>"
  from Fire assms have s': "s' = timerExpired ?s0"
    by (simp add: fire_Some)
  have "result ?s0 = recorded ?s0" using assms by (simp add: recorded_def)
  then show ?thesis unfolding s' by (rule timerExpired_recorded)
next
  case Cancel
  with assms show ?thesis using cancel_recorded [of s] by auto
next
  case Flush
  with assms show ?thesis using trailingEdge_recorded [of s "now s"]
    by (auto simp: flush_def split: if_splits)
qed

lemma run_recorded:
  "run es s = Some s' \<Longrightarrow> result s = recorded s \<Longrightarrow> result s' = recorded s'"
proof (induction es arbitrary: s)
  case Nil
  then show ?case by simp
next
  case (Cons e es)
  then obtain s1 where a: "step e s = Some s1" and b: "run es s1 = Some s'"
    by (auto split: option.splits)
  from step_recorded [OF a Cons.prems(2)] Cons.IH [OF b] show ?case by simp
qed

lemma reachable_recorded:
  assumes "from_start (debounce fn w opts raf) es = Some s"
  shows "result s = recorded s"
proof -
  from assms obtain s0 where c: "debounce fn w opts raf = Inr s0" and r: "run es s0 = Some s"
    by (auto simp: from_start_def split: sum.splits)
  from c have "result s0 = recorded s0"
    by (auto simp: debounce_def recorded_def Let_def split: jsvalue.splits)
  with r show ?thesis by (rule run_recorded)
qed

lemma reachable_config:
  assumes "from_start (debounce (Function f) (Some d) (Some ob) raf) es = Some s"
    and "opt_maxWait ob = Some m"
  shows "maxing s \<and> maxWait s = Some (max m d) \<and> timeToWait s = d \<and> wait s = Some d
    \<and> \<not> useRAF s"
proof -
  from assms(1) obtain s0 where c: "debounce (Function f) (Some d) (Some ob) raf = Inr s0"
    and r: "run es s0 = Some s"
    by (auto simp: from_start_def split: sum.splits)
  from c assms(2) have "maxing s0 \<and> maxWait s0 = Some (max m d) \<and> timeToWait s0 = d
    \<and> wait s0 = Some d \<and> \<not> useRAF s0"
    by (auto simp: debounce_def Let_def)
  with run_config [OF r] show ?thesis by (simp add: same_config_def)
qed

subsection \<open>What the front-end returns\<close>

text \<open>
  C10: in every state a debouncer can reach, a call of \<^verbatim>\<open>debounced\<close> either invokes
  \<^verbatim>\<open>func\<close> synchronously with its own \<^verbatim>\<open>this\<close> and arguments and returns what that
  invocation returned, or invokes nothing and returns what the most recent earlier
  invocation returned (\<^verbatim>\<open>undefined\<close> if there was none). Either way the value returned
  is the result of the latest invocation in the trace after the call.
\<close>

theorem debounced_returns_latest_result:
  assumes "from_start (debounce fn w opts raf) es = Some s"
  shows "(invoked (snd (debounced this args s)) = invoked s
            \<and> fst (debounced this args s) = recorded s
          \<or> invoked (snd (debounced this args s)) = invoked s @ [(now s, this, args)]
            \<and> fst (debounced this args s) = Some (func s this args))
       \<and> fst (debounced this args s) = recorded (snd (debounced this args s))"
proof -
  have r: "result s = recorded s" using assms by (rule reachable_recorded)
  have a: "invoked (snd (debounced this args s)) = invoked s
            \<and> fst (debounced this args s) = result s
          \<or> invoked (snd (debounced this args s)) = invoked s @ [(now s, this, args)]
            \<and> fst (debounced this args s) = Some (func s this args)"
    by (simp add: debounced_def leadingEdge_def invokeFunc_def armTimer_def startTimer_def
        host_defs Let_def)
  have b: "fst (debounced this args s) = result (snd (debounced this args s))"
    by (simp add: debounced_def leadingEdge_def invokeFunc_def armTimer_def startTimer_def
        host_defs Let_def)
  from a b r debounced_recorded [OF r, of this args] show ?thesis by auto
qed

text \<open>
  C10 after one invocation: \<^verbatim>\<open>debounce(echo, 100, {leading: true})\<close> has invoked with A
  at time 100; a call with B at 130 invokes nothing and returns the result for A.
\<close>

theorem debounced_returns_latest_result_witness:
  "from_start (debounce (Function echo) (Some 100)
       (Some \<lparr>opt_leading = Some True, opt_maxWait = None, opt_trailing = None\<rparr>) False)
     [Clock 100, Call None [''A''], Clock 130]
     = Some (the (from_start leading100 [Clock 100, Call None [''A''], Clock 130]))
   \<and> fst (debounced None [''B'']
        (the (from_start leading100 [Clock 100, Call None [''A''], Clock 130])))
     = recorded (snd (debounced None [''B'']
        (the (from_start leading100 [Clock 100, Call None [''A''], Clock 130]))))
   \<and> recorded (snd (debounced None [''B'']
        (the (from_start leading100 [Clock 100, Call None [''A''], Clock 130]))))
     = Some [''A'']"
proof -
  have h: "from_start (debounce (Function echo) (Some 100)
       (Some \<lparr>opt_leading = Some True, opt_maxWait = None, opt_trailing = None\<rparr>) False)
     [Clock 100, Call None [''A''], Clock 130]
     = Some (the (from_start leading100 [Clock 100, Call None [''A''], Clock 130]))"
    by (simp add: scenario_defs sched_defs host_defs)
  have v: "recorded (snd (debounced None [''B'']
        (the (from_start leading100 [Clock 100, Call None [''A''], Clock 130]))))
     = Some [''A'']"
    by (simp add: scenario_defs sched_defs host_defs recorded_def)
  show ?thesis
    using h v debounced_returns_latest_result [OF h, of None "[''B'']"] by simp
qed

subsection \<open>The maxWait ceiling\<close>

lemma shouldInvoke_timers: "shouldInvoke t (s\<lparr>timers := q\<rparr>) = shouldInvoke t s"
  by (simp add: shouldInvoke_def split: option.splits)


text \<open>
  Single steps under a ceiling. Let \<^verbatim>\<open>debounce\<close> be given a delay \<open>d \<ge> 0\<close> and a
  \<^verbatim>\<open>maxWait\<close> of \<open>m\<close>. In every state it can reach: a call while a wake-up is pending,
  the ceiling or more after \<^verbatim>\<open>lastInvokeTime\<close>, invokes at once; a call at the leading
  edge sets \<^verbatim>\<open>lastInvokeTime\<close> and requests a wake-up due \<open>d\<close> later; a wake-up that runs
  the ceiling or more after \<^verbatim>\<open>lastInvokeTime\<close> takes the trailing edge; and a wake-up for
  which \<^verbatim>\<open>shouldInvoke\<close> does not hold requests one new wake-up, due later than now and
  no later than \<^verbatim>\<open>lastInvokeTime\<close> plus the ceiling.
\<close>

theorem maxWait_ceiling_steps:
  assumes "from_start (debounce (Function f) (Some d) (Some ob) raf) es = Some s"
    and "opt_maxWait ob = Some m" and "0 \<le> d"
  shows "(timerId s \<noteq> None \<and> max m d \<le> now s - lastInvokeTime s \<longrightarrow>
            invoked (snd (debounced this args s)) = invoked s @ [(now s, this, args)]
          \<and> lastInvokeTime (snd (debounced this args s)) = now s)
       \<and> (timerId s = None \<and> shouldInvoke (now s) s \<longrightarrow>
            lastInvokeTime (snd (debounced this args s)) = now s
          \<and> timers (snd (debounced this args s)) = timers s @ [(nextId s, Timeout (now s + d))]
          \<and> now s + d \<le> lastInvokeTime (snd (debounced this args s)) + max m d)
       \<and> (max m d \<le> now s - lastInvokeTime s \<longrightarrow>
            timerId (timerExpired (s\<lparr>timers := q\<rparr>)) = None
          \<and> timers (timerExpired (s\<lparr>timers := q\<rparr>)) = q
          \<and> (trailing s \<and> lastArgs s \<noteq> None \<longrightarrow>
               invoked (timerExpired (s\<lparr>timers := q\<rparr>))
                 = invoked s @ [(now s, lastThis s, args_of s)]))
       \<and> (\<not> shouldInvoke (now s) s \<longrightarrow>
            timerId (timerExpired (s\<lparr>timers := q\<rparr>)) = Some (nextId s)
          \<and> lastInvokeTime (timerExpired (s\<lparr>timers := q\<rparr>)) = lastInvokeTime s
          \<and> invoked (timerExpired (s\<lparr>timers := q\<rparr>)) = invoked s
          \<and> timers (timerExpired (s\<lparr>timers := q\<rparr>)) = q @
               [(nextId s, Timeout (now s + min (d - (now s - the (lastCallTime s)))
                                              (max m d - (now s - lastInvokeTime s))))]
          \<and> now s < now s + min (d - (now s - the (lastCallTime s)))
                                (max m d - (now s - lastInvokeTime s))
          \<and> now s + min (d - (now s - the (lastCallTime s)))
                        (max m d - (now s - lastInvokeTime s))
              \<le> lastInvokeTime s + max m d)"
proof -
  note c = reachable_config [OF assms(1) assms(2)]
  have a: "timerId s \<noteq> None \<and> max m d \<le> now s - lastInvokeTime s \<longrightarrow>
            invoked (snd (debounced this args s)) = invoked s @ [(now s, this, args)]
          \<and> lastInvokeTime (snd (debounced this args s)) = now s"
    using c by (auto simp: debounced_def shouldInvoke_def invokeFunc_def armTimer_def
        startTimer_def host_defs Let_def split: option.splits)
  have b: "timerId s = None \<and> shouldInvoke (now s) s \<longrightarrow>
            lastInvokeTime (snd (debounced this args s)) = now s
          \<and> timers (snd (debounced this args s)) = timers s @ [(nextId s, Timeout (now s + d))]
          \<and> now s + d \<le> lastInvokeTime (snd (debounced this args s)) + max m d"
    using c assms(3) by (auto simp: debounced_def leadingEdge_def invokeFunc_def armTimer_def
        startTimer_def host_defs Let_def)
  have sh: "max m d \<le> now s - lastInvokeTime s \<Longrightarrow> shouldInvoke (now s) (s\<lparr>timers := q\<rparr>)"
    using c by (auto simp: shouldInvoke_def split: option.splits)
  have cc: "max m d \<le> now s - lastInvokeTime s \<longrightarrow>
            timerId (timerExpired (s\<lparr>timers := q\<rparr>)) = None
          \<and> timers (timerExpired (s\<lparr>timers := q\<rparr>)) = q
          \<and> (trailing s \<and> lastArgs s \<noteq> None \<longrightarrow>
               invoked (timerExpired (s\<lparr>timers := q\<rparr>))
                 = invoked s @ [(now s, lastThis s, args_of s)])"
    using sh by (auto simp: timerExpired_def trailingEdge_def invokeFunc_def args_of_def Let_def)
  have dd: "\<not> shouldInvoke (now s) s \<longrightarrow>
            timerId (timerExpired (s\<lparr>timers := q\<rparr>)) = Some (nextId s)
          \<and> lastInvokeTime (timerExpired (s\<lparr>timers := q\<rparr>)) = lastInvokeTime s
          \<and> invoked (timerExpired (s\<lparr>timers := q\<rparr>)) = invoked s
          \<and> timers (timerExpired (s\<lparr>timers := q\<rparr>)) = q @
               [(nextId s, Timeout (now s + min (d - (now s - the (lastCallTime s)))
                                              (max m d - (now s - lastInvokeTime s))))]
          \<and> now s < now s + min (d - (now s - the (lastCallTime s)))
                                (max m d - (now s - lastInvokeTime s))
          \<and> now s + min (d - (now s - the (lastCallTime s)))
                        (max m d - (now s - lastInvokeTime s))
              \<le> lastInvokeTime s + max m d"
  proof
    assume n: "\<not> shouldInvoke (now s) s"
    then obtain c0 where lc: "lastCallTime s = Some c0"
      by (auto simp: shouldInvoke_def split: option.splits)
    from n lc c have bnd: "now s - c0 < d" "0 \<le> now s - c0" "now s - lastInvokeTime s < max m d"
      by (auto simp: shouldInvoke_def)
    have n': "\<not> shouldInvoke (now s) (s\<lparr>timers := q\<rparr>)"
      using n by (simp add: shouldInvoke_timers)
    have rw: "remainingWait (now s) (s\<lparr>timers := q\<rparr>)
        = Some (min (d - (now s - c0)) (max m d - (now s - lastInvokeTime s)))"
      using c lc by (simp add: remainingWait_def js_sub_def js_min_def Let_def)
    have pos: "0 < min (d - (now s - c0)) (max m d - (now s - lastInvokeTime s))"
      using bnd by simp
    show "timerId (timerExpired (s\<lparr>timers := q\<rparr>)) = Some (nextId s)
          \<and> lastInvokeTime (timerExpired (s\<lparr>timers := q\<rparr>)) = lastInvokeTime s
          \<and> invoked (timerExpired (s\<lparr>timers := q\<rparr>)) = invoked s
          \<and> timers (timerExpired (s\<lparr>timers := q\<rparr>)) = q @
               [(nextId s, Timeout (now s + min (d - (now s - the (lastCallTime s)))
                                              (max m d - (now s - lastInvokeTime s))))]
          \<and> now s < now s + min (d - (now s - the (lastCallTime s)))
                                (max m d - (now s - lastInvokeTime s))
          \<and> now s + min (d - (now s - the (lastCallTime s)))
                        (max m d - (now s - lastInvokeTime s))
              \<le> lastInvokeTime s + max m d"
      using n' c lc pos rw
      by (simp add: timerExpired_def armTimer_def startTimer_def host_defs Let_def)
  qed
  from a b cc dd show ?thesis by blast
qed

text \<open>
  The single steps on \<^verbatim>\<open>debounce(echo, 100, {maxWait: 250})\<close>: at \<open>late_capped\<close>, at
  \<open>idle_capped\<close> and at \<open>warm_capped\<close>.
\<close>

theorem maxWait_ceiling_steps_witness:
  "from_start (debounce (Function echo) (Some 100)
       (Some \<lparr>opt_leading = None, opt_maxWait = Some 250, opt_trailing = None\<rparr>) False)
     [Clock 0, Call None [''A''], Clock 300] = Some late_capped
   \<and> opt_maxWait \<lparr>opt_leading = None, opt_maxWait = Some 250, opt_trailing = None\<rparr> = Some 250
   \<and> (0::int) \<le> 100
   \<and> timerId late_capped \<noteq> None \<and> max 250 100 \<le> now late_capped - lastInvokeTime late_capped
   \<and> invoked (snd (debounced None [''B''] late_capped))
       = invoked late_capped @ [(now late_capped, None, [''B''])]
   \<and> timerId (timerExpired (late_capped\<lparr>timers := []\<rparr>)) = None
   \<and> timerId idle_capped = None \<and> shouldInvoke (now idle_capped) idle_capped
   \<and> timers (snd (debounced None [''A''] idle_capped))
       = timers idle_capped @ [(nextId idle_capped, Timeout (now idle_capped + 100))]
   \<and> \<not> shouldInvoke (now warm_capped) warm_capped
   \<and> timers (timerExpired (warm_capped\<lparr>timers := []\<rparr>)) = [(2, Timeout 140)]"
proof -
  let ?ob = "\<lparr>opt_leading = None, opt_maxWait = Some 250, opt_trailing = None\<rparr>"
  have m: "opt_maxWait ?ob = Some 250" by simp
  have d: "(0::int) \<le> 100" by simp
  have r1: "from_start (debounce (Function echo) (Some 100) (Some ?ob) False)
      [Clock 0, Call None [''A''], Clock 300] = Some late_capped"
    by (simp add: scenario_defs sched_defs host_defs)
  have r2: "from_start (debounce (Function echo) (Some 100) (Some ?ob) False) []
      = Some idle_capped"
    by (simp add: scenario_defs sched_defs host_defs)
  have r3: "from_start (debounce (Function echo) (Some 100) (Some ?ob) False)
      [Clock 0, Call None [''A''], Clock 40, Call None [''B''], Clock 100] = Some warm_capped"
    by (simp add: scenario_defs sched_defs host_defs)
  have p1: "timerId late_capped \<noteq> None \<and> max 250 100 \<le> now late_capped - lastInvokeTime late_capped"
    by (simp add: scenario_defs sched_defs host_defs)
  have p2: "timerId idle_capped = None \<and> shouldInvoke (now idle_capped) idle_capped"
    by (simp add: scenario_defs sched_defs host_defs)
  have p3: "\<not> shouldInvoke (now warm_capped) warm_capped"
    by (simp add: scenario_defs sched_defs host_defs)
  have v3: "now warm_capped = 100 \<and> lastCallTime warm_capped = Some 40
      \<and> lastInvokeTime warm_capped = 0 \<and> nextId warm_capped = 2"
    by (simp add: scenario_defs sched_defs host_defs)
  show ?thesis
    using m d r1 p1 p2 p3 v3
      maxWait_ceiling_steps [OF r1 m d, of None "[''B'']" "[]"]
      maxWait_ceiling_steps [OF r2 m d, of None "[''A'']" "[]"]
      maxWait_ceiling_steps [OF r3 m d, of None "[''A'']" "[]"]
    by simp
qed

subsection \<open>The ceiling along a punctual run\<close>












end
